theory Spec2Isabelle
  imports Complex_Main
begin

section \<open>Values\<close>

text \<open>
  Identifiers (\<open>uuid\<close>) and timestamps (\<open>timestamptz\<close>, a count of clock ticks) are
  natural numbers. A PostgreSQL \<open>decimal\<close> is an exact rational. A JavaScript \<open>number\<close>
  is NaN, one of the two infinities, or a finite binary64 value: \<open>Num x\<close> is the finite
  value that JavaScript writes as the decimal \<open>x\<close>, so finite values compare as these
  decimals do.
\<close>

type_synonym uuid = nat
type_synonym timestamptz = nat
type_synonym decimal = rat

datatype number = NaN | NegInfinity | Num rat | Infinity

text \<open>The relational operators of JavaScript: every comparison with NaN is false.\<close>

fun js_lt :: "number \<Rightarrow> number \<Rightarrow> bool" where
  "js_lt NaN b = False"
| "js_lt a NaN = False"
| "js_lt (Num x) (Num y) = (x < y)"
| "js_lt (Num x) Infinity = True"
| "js_lt (Num x) NegInfinity = False"
| "js_lt NegInfinity NegInfinity = False"
| "js_lt NegInfinity b = True"
| "js_lt Infinity b = False"

definition js_gt :: "number \<Rightarrow> number \<Rightarrow> bool" where
  "js_gt a b = js_lt b a"

definition js_le :: "number \<Rightarrow> number \<Rightarrow> bool" where
  "js_le a b = (a \<noteq> NaN \<and> b \<noteq> NaN \<and> \<not> js_lt b a)"

definition isNaN :: "number \<Rightarrow> bool" where
  "isNaN n = (n = NaN)"

text \<open>
  \<open>JSON.stringify\<close> writes a finite number as its decimal and NaN and the infinities
  as \<open>null\<close>; this is how the client library ships a number to the store.
\<close>

fun to_json :: "number \<Rightarrow> decimal option" where
  "to_json (Num x) = Some x"
| "to_json NaN = None"
| "to_json NegInfinity = None"
| "to_json Infinity = None"

text \<open>
  Two conversions are built into JavaScript and taken as given: \<open>Number(s)\<close> reads a
  string, and reading a JSON response turns a decimal of the store into the nearest
  binary64 value (\<open>from_json\<close>). Every theorem holds for each pair of such functions.
\<close>

record javascript =
  Number :: "string \<Rightarrow> number"
  from_json :: "decimal \<Rightarrow> number"

text \<open>
  Concrete runs use tables: the literals typed into the amount field with their numbers,
  and the balances read back, all of them binary64 values themselves.
\<close>

definition Number_table :: "(string \<times> rat) list \<Rightarrow> string \<Rightarrow> number" where
  "Number_table tbl s = (case map_of tbl s of Some x \<Rightarrow> Num x | None \<Rightarrow> NaN)"

definition from_json_table :: "rat list \<Rightarrow> decimal \<Rightarrow> number" where
  "from_json_table ds d = (if d \<in> set ds then Num d else NaN)"

section \<open>The schema (migration \<open>20250122233232_bitter_rain.sql\<close>)\<close>

datatype tx_type = deposit | withdrawal | trade
datatype currency = BTC | USD
datatype tx_status = pending | completed | failed

record auth_users_row =
  u_id :: uuid
  email :: "string option"

record profiles_row =
  p_id :: uuid
  username :: "string option"
  p_btc_balance :: decimal
  p_usd_balance :: decimal
  p_created_at :: timestamptz
  updated_at :: timestamptz

record transactions_row =
  t_id :: uuid
  user_id :: "uuid option"
  t_type :: tx_type
  t_amount :: decimal
  t_currency :: currency
  t_status :: tx_status
  t_created_at :: timestamptz

record database =
  auth_users_table :: "auth_users_row list"
  profiles_table :: "profiles_row list"
  transactions_table :: "transactions_row list"

definition empty_database :: database where
  "empty_database = \<lparr>auth_users_table = [], profiles_table = [], transactions_table = []\<rparr>"

datatype dberror =
    rls_violation
  | not_null_violation
  | unique_violation
  | foreign_key_violation
  | check_violation
  | InsufficientFunds

text \<open>What the store draws for a statement: \<open>now()\<close> and \<open>gen_random_uuid()\<close>.\<close>

record env =
  now :: timestamptz
  gen_random_uuid :: uuid

subsection \<open>Provisioning: \<open>handle_new_user\<close> and \<open>on_auth_user_created\<close>\<close>

text \<open>
  \<open>INSERT INTO profiles (id, username) VALUES (new.id, new.email)\<close>: the balances take
  their default 0 and both timestamps \<open>now()\<close>. The row is refused when \<open>id\<close> is taken
  (primary key), when \<open>username\<close> is a non-null value already present (UNIQUE), when
  \<open>id\<close> is no row of \<open>auth.users\<close> (foreign key), or when a balance is negative (CHECK).
\<close>

definition handle_new_user :: "timestamptz \<Rightarrow> auth_users_row \<Rightarrow> database \<Rightarrow> dberror + database" where
  "handle_new_user t new db =
     (let row = \<lparr>p_id = u_id new, username = email new, p_btc_balance = 0, p_usd_balance = 0,
                  p_created_at = t, updated_at = t\<rparr>
      in if p_id row \<in> p_id ` set (profiles_table db) then Inl unique_violation
         else if username row \<noteq> None \<and> username row \<in> username ` set (profiles_table db)
           then Inl unique_violation
         else if p_id row \<notin> u_id ` set (auth_users_table db) then Inl foreign_key_violation
         else if \<not> (0 \<le> p_btc_balance row \<and> 0 \<le> p_usd_balance row) then Inl check_violation
         else Inr (db\<lparr>profiles_table := profiles_table db @ [row]\<rparr>))"

text \<open>
  An identity is registered by a row inserted into \<open>auth.users\<close>; the trigger
  \<open>on_auth_user_created\<close> runs \<open>handle_new_user\<close> AFTER INSERT, FOR EACH ROW, in the same
  statement: when it fails the registration fails with it and nothing is stored.
\<close>

definition insert_auth_users :: "timestamptz \<Rightarrow> auth_users_row \<Rightarrow> database \<Rightarrow> dberror + database" where
  "insert_auth_users t new db =
     (if u_id new \<in> u_id ` set (auth_users_table db) then Inl unique_violation
      else handle_new_user t new (db\<lparr>auth_users_table := auth_users_table db @ [new]\<rparr>))"

subsection \<open>Inserting into \<open>transactions\<close>\<close>

text \<open>
  The dashboard waits for ``the trigger'' after its insert and then reads the ``updated
  balances''. The migration defines no trigger on \<open>transactions\<close>, so the balance change
  is a parameter of the insert: a \<open>balance_trigger\<close> maps the new row and the owner's
  balances \<open>(btc, usd)\<close> to the new balances, or raises. \<open>no_trigger\<close> is the schema
  exactly as the migration creates it.
\<close>

type_synonym balance_trigger = "transactions_row \<Rightarrow> decimal \<times> decimal \<Rightarrow> dberror + decimal \<times> decimal"

definition no_trigger :: balance_trigger where
  "no_trigger new acc = Inr acc"

text \<open>
  The trigger's \<open>UPDATE profiles SET btc_balance = .., usd_balance = .. WHERE id =
  NEW.user_id\<close>. The table's \<open>CHECK (btc_balance >= 0)\<close> and \<open>CHECK (usd_balance >= 0)\<close>
  are tested on every row written.
\<close>

fun update_balances :: "balance_trigger \<Rightarrow> transactions_row \<Rightarrow> profiles_row list \<Rightarrow> dberror + profiles_row list" where
  "update_balances trg new [] = Inr []"
| "update_balances trg new (r # rs) =
     (if Some (p_id r) = user_id new then
        (case trg new (p_btc_balance r, p_usd_balance r) of
           Inl e \<Rightarrow> Inl e
         | Inr (b, u) \<Rightarrow>
             if 0 \<le> b \<and> 0 \<le> u then
               (case update_balances trg new rs of
                  Inl e \<Rightarrow> Inl e
                | Inr rs' \<Rightarrow> Inr (r\<lparr>p_btc_balance := b, p_usd_balance := u\<rparr> # rs'))
             else Inl check_violation)
      else
        (case update_balances trg new rs of
           Inl e \<Rightarrow> Inl e
         | Inr rs' \<Rightarrow> Inr (r # rs')))"

text \<open>The values a client sends; \<open>id\<close> and \<open>created_at\<close> are left to their defaults.\<close>

record transactions_insert =
  i_user_id :: "uuid option"
  i_type :: tx_type
  i_amount :: "decimal option"
  i_currency :: currency
  i_status :: "tx_status option"

text \<open>
  \<open>INSERT INTO transactions\<close> by the session \<open>uid\<close> (\<open>auth.uid()\<close>, \<open>None\<close> when nobody
  is signed in). Policy ``Users can insert own transactions'': \<open>auth.uid() = user_id\<close>, for
  the role \<open>authenticated\<close>. \<open>amount\<close> is NOT NULL and has no other constraint. \<open>id\<close> is
  the primary key, \<open>user_id\<close> references \<open>profiles(id)\<close> when it is not null, \<open>status\<close>
  defaults to \<open>pending\<close>. The CHECKs on \<open>type\<close>, \<open>currency\<close> and \<open>status\<close> hold by typing. The whole
  statement is one transaction: an error leaves the database as it was.
\<close>

definition insert_transactions :: "balance_trigger \<Rightarrow> uuid option \<Rightarrow> env \<Rightarrow> transactions_insert \<Rightarrow> database \<Rightarrow> dberror + database" where
  "insert_transactions trg uid e v db =
     (if uid = None \<or> i_user_id v \<noteq> uid then Inl rls_violation
      else (case i_amount v of
        None \<Rightarrow> Inl not_null_violation
      | Some a \<Rightarrow>
          (let new = \<lparr>t_id = gen_random_uuid e, user_id = i_user_id v, t_type = i_type v,
                      t_amount = a, t_currency = i_currency v,
                      t_status = (case i_status v of None \<Rightarrow> pending | Some s \<Rightarrow> s),
                      t_created_at = now e\<rparr>
           in if t_id new \<in> t_id ` set (transactions_table db) then Inl unique_violation
              else if (case user_id new of
                         None \<Rightarrow> False
                       | Some u \<Rightarrow> u \<notin> p_id ` set (profiles_table db))
                then Inl foreign_key_violation
              else (case update_balances trg new (profiles_table db) of
                Inl err \<Rightarrow> Inl err
              | Inr ps \<Rightarrow> Inr (db\<lparr>profiles_table := ps,
                                   transactions_table := transactions_table db @ [new]\<rparr>)))))"

subsection \<open>Reading\<close>

text \<open>
  \<open>ORDER BY created_at DESC\<close>: newest first. SQL leaves the order of rows with equal
  \<open>created_at\<close> open; here they stay in the order they were stored. No property below
  depends on that choice.
\<close>

definition order_created_at_desc :: "transactions_row list \<Rightarrow> transactions_row list" where
  "order_created_at_desc ts = rev (sort_key t_created_at (rev ts))"

section \<open>The dashboard (\<open>Dashboard.tsx\<close>)\<close>

record Profile =
  btc_balance :: number
  usd_balance :: number

datatype toast = toast_success string | toast_error string

record dashboard =
  user :: "uuid option"
  profile :: "Profile option"
  transactions :: "transactions_row list"
  amount :: string
  loading :: bool

text \<open>
  \<open>fetchProfile\<close>: \<open>select btc_balance, usd_balance from profiles where id = user.id\<close>,
  \<open>.single()\<close>: anything but exactly one visible row is an error, reported by a toast, and
  the profile held stays. The balances arrive as JSON numbers.
\<close>

definition fetchProfile :: "javascript \<Rightarrow> dashboard \<Rightarrow> database \<Rightarrow> toast list \<times> dashboard" where
  "fetchProfile js st db =
     (case filter (\<lambda>r. Some (p_id r) = user st) (profiles_table db) of
        [r] \<Rightarrow> ([], st\<lparr>profile := Some \<lparr>btc_balance = from_json js (p_btc_balance r),
                                         usd_balance = from_json js (p_usd_balance r)\<rparr>\<rparr>)
      | _ \<Rightarrow> ([toast_error ''Failed to load profile''], st))"

text \<open>
  \<open>fetchTransactions\<close>: the user's rows, \<open>order('created_at', {ascending: false})\<close>,
  \<open>limit(10)\<close>. Without a signed-in user the filter value is \<open>undefined\<close> and the request
  is refused. The rows are kept as the store returns them.
\<close>

definition fetchTransactions :: "dashboard \<Rightarrow> database \<Rightarrow> toast list \<times> dashboard" where
  "fetchTransactions st db =
     (case user st of
        None \<Rightarrow> ([toast_error ''Failed to load transactions''], st)
      | Some u \<Rightarrow>
          ([], st\<lparr>transactions :=
                 take 10 (order_created_at_desc
                   (filter (\<lambda>t. user_id t = Some u) (transactions_table db)))\<rparr>))"

fun type_name :: "tx_type \<Rightarrow> string" where
  "type_name deposit = ''deposit''"
| "type_name withdrawal = ''withdrawal''"
| "type_name trade = ''trade''"

text \<open>
  \<open>handleTransaction(type)\<close> on the amount typed into the form. It returns the toasts it
  shows, the component's state and the database. \<open>profile?.btc_balance\<close> of a missing profile
  is \<open>undefined\<close>, which compares as NaN. The TypeScript signature admits \<open>deposit\<close> and
  \<open>withdrawal\<close> only.
\<close>

definition handleTransaction :: "javascript \<Rightarrow> balance_trigger \<Rightarrow> env \<Rightarrow> tx_type \<Rightarrow> dashboard \<times> database \<Rightarrow> toast list \<times> dashboard \<times> database" where
  "handleTransaction js trg e type s =
     (let st = fst s; db = snd s in
      if amount st = [] \<or> isNaN (Number js (amount st)) \<or> js_le (Number js (amount st)) (Num 0)
      then ([toast_error ''Please enter a valid amount''], st, db)
      else if type = withdrawal \<and>
              js_gt (Number js (amount st)) (case profile st of None \<Rightarrow> NaN | Some p \<Rightarrow> btc_balance p)
      then ([toast_error ''Insufficient balance''], st, db)
      else
        case insert_transactions trg (user st) e
               \<lparr>i_user_id = user st, i_type = type, i_amount = to_json (Number js (amount st)),
                i_currency = BTC, i_status = Some completed\<rparr> db of
          Inl err \<Rightarrow> ([toast_error (''Failed to process '' @ type_name type)], st\<lparr>loading := False\<rparr>, db)
        | Inr db' \<Rightarrow>
            let st1 = st\<lparr>loading := True, amount := []\<rparr>;
                r1 = fetchProfile js st1 db';
                r2 = fetchTransactions (snd r1) db'
            in (toast_success (type_name type @ '' successful'') # fst r1 @ fst r2,
                (snd r2)\<lparr>loading := False\<rparr>, db'))"

section \<open>The ledger of the specification\<close>

text \<open>
  Modelled from the spec: the Account Store's \<open>applyDelta\<close>, which no source file at hand
  defines. ``Rejects any delta that would drive a balance below zero, returning
  \<open>InsufficientFunds\<close> without mutating state''; otherwise both deltas are added. The
  account is its pair of balances \<open>(btc, usd)\<close>.
\<close>

definition applyDelta :: "decimal \<times> decimal \<Rightarrow> decimal \<Rightarrow> decimal \<Rightarrow> dberror + decimal \<times> decimal" where
  "applyDelta acc btcDelta usdDelta =
     (if fst acc + btcDelta < 0 \<or> snd acc + usdDelta < 0 then Inl InsufficientFunds
      else Inr (fst acc + btcDelta, snd acc + usdDelta))"

text \<open>
  Modelled from the spec: the balance change that goes with a stored transaction, the
  trigger the dashboard waits for; its SQL is in no migration at hand. Ledger Service,
  step 3: ``compute signed delta (\<open>+amount\<close> for deposit, \<open>-amount\<close> for withdrawal), apply
  to Account Store'', in the transaction's currency. \<open>trade\<close> ``has no implemented command
  path'': it moves nothing.
\<close>

definition ledger_trigger :: balance_trigger where
  "ledger_trigger new acc =
     (let delta = (case t_type new of
                     deposit \<Rightarrow> t_amount new
                   | withdrawal \<Rightarrow> - t_amount new
                   | trade \<Rightarrow> 0)
      in case t_currency new of
           BTC \<Rightarrow> applyDelta acc delta 0
         | USD \<Rightarrow> applyDelta acc 0 delta)"

section \<open>Histories\<close>

text \<open>
  A history of the system: identities are registered and signed-in users press the
  deposit and withdrawal buttons, each press from whatever state the user's dashboard is in.
  A registration that fails stores nothing.
\<close>

datatype command = SignUp timestamptz auth_users_row | Submit env tx_type dashboard

fun run :: "javascript \<Rightarrow> balance_trigger \<Rightarrow> command list \<Rightarrow> database \<Rightarrow> database" where
  "run js trg [] db = db"
| "run js trg (SignUp t new # cs) db =
     run js trg cs (case insert_auth_users t new db of Inl err \<Rightarrow> db | Inr db' \<Rightarrow> db')"
| "run js trg (Submit e type st # cs) db =
     run js trg cs (snd (snd (handleTransaction js trg e type (st, db))))"

text \<open>The row of an account, and the two CHECK constraints of \<open>profiles\<close> as a predicate.\<close>

definition account :: "database \<Rightarrow> uuid \<Rightarrow> profiles_row option" where
  "account db u = find (\<lambda>r. p_id r = u) (profiles_table db)"

definition balance_checks :: "profiles_row \<Rightarrow> bool" where
  "balance_checks r = (0 \<le> p_btc_balance r \<and> 0 \<le> p_usd_balance r)"

text \<open>The rows of a user stamped at or after a given time.\<close>

definition not_older :: "uuid option \<Rightarrow> timestamptz \<Rightarrow> database \<Rightarrow> transactions_row list" where
  "not_older u t0 db
     = filter (\<lambda>t. t0 \<le> t_created_at t) (filter (\<lambda>t. user_id t = u) (transactions_table db))"

text \<open>Strictly descending and descending \<open>created_at\<close>.\<close>

definition strictly_newest_first :: "transactions_row list \<Rightarrow> bool" where
  "strictly_newest_first ts = sorted_wrt (\<lambda>a b. t_created_at b < t_created_at a) ts"

definition newest_first :: "transactions_row list \<Rightarrow> bool" where
  "newest_first ts = sorted_wrt (\<lambda>a b. t_created_at b \<le> t_created_at a) ts"

section \<open>A concrete account\<close>

text \<open>
  The identity \<open>alice\<close>, her row and dashboard at a given BTC balance, the conversions
  on the literals and balances of the runs below, and the values the store draws for a
  statement.
\<close>

definition alice :: auth_users_row where
  "alice = \<lparr>u_id = 7, email = Some ''alice@example.com''\<rparr>"

definition alice_row :: "decimal \<Rightarrow> profiles_row" where
  "alice_row b = \<lparr>p_id = 7, username = Some ''alice@example.com'', p_btc_balance = b,
                  p_usd_balance = 0, p_created_at = 10, updated_at = 10\<rparr>"

definition alice_database :: "decimal \<Rightarrow> transactions_row list \<Rightarrow> database" where
  "alice_database b ts = \<lparr>auth_users_table = [alice], profiles_table = [alice_row b],
                          transactions_table = ts\<rparr>"

definition alice_dashboard :: "rat \<Rightarrow> string \<Rightarrow> dashboard" where
  "alice_dashboard b s = \<lparr>user = Some 7, profile = Some \<lparr>btc_balance = Num b, usd_balance = Num 0\<rparr>,
                          transactions = [], amount = s, loading = False\<rparr>"

definition literals :: javascript where
  "literals = \<lparr>Number = Number_table [(''0.5'', 1/2), (''1.0'', 1), (''0'', 0), (''-1'', -1)],
               from_json = from_json_table [0, 1/2, 1, 3/2]\<rparr>"

definition drawn :: "timestamptz \<Rightarrow> uuid \<Rightarrow> env" where
  "drawn t i = \<lparr>now = t, gen_random_uuid = i\<rparr>"

definition alice_tx :: "uuid \<Rightarrow> tx_type \<Rightarrow> decimal \<Rightarrow> timestamptz \<Rightarrow> transactions_row" where
  "alice_tx i ty a t = \<lparr>t_id = i, user_id = Some 7, t_type = ty, t_amount = a, t_currency = BTC,
                        t_status = completed, t_created_at = t\<rparr>"

text \<open>Two deposits of 0.5 and a withdrawal of 0.5.\<close>

definition three_rows :: "transactions_row list" where
  "three_rows = [alice_tx 100 deposit (1/2) 20, alice_tx 101 deposit (1/2) 30,
                 alice_tx 102 withdrawal (1/2) 40]"

text \<open>Eleven deposits of 0.5 in a row, and the rows they store.\<close>

definition eleven_deposits :: "command list" where
  "eleven_deposits =
     [Submit (drawn 20 100) deposit (alice_dashboard 0 ''0.5''),
      Submit (drawn 30 101) deposit (alice_dashboard (1/2) ''0.5''),
      Submit (drawn 40 102) deposit (alice_dashboard 1 ''0.5''),
      Submit (drawn 50 103) deposit (alice_dashboard (3/2) ''0.5''),
      Submit (drawn 60 104) deposit (alice_dashboard 2 ''0.5''),
      Submit (drawn 70 105) deposit (alice_dashboard (5/2) ''0.5''),
      Submit (drawn 80 106) deposit (alice_dashboard 3 ''0.5''),
      Submit (drawn 90 107) deposit (alice_dashboard (7/2) ''0.5''),
      Submit (drawn 100 108) deposit (alice_dashboard 4 ''0.5''),
      Submit (drawn 110 109) deposit (alice_dashboard (9/2) ''0.5''),
      Submit (drawn 120 110) deposit (alice_dashboard 5 ''0.5'')]"

definition eleven_rows :: "transactions_row list" where
  "eleven_rows =
     [alice_tx 100 deposit (1/2) 20, alice_tx 101 deposit (1/2) 30, alice_tx 102 deposit (1/2) 40,
      alice_tx 103 deposit (1/2) 50, alice_tx 104 deposit (1/2) 60, alice_tx 105 deposit (1/2) 70,
      alice_tx 106 deposit (1/2) 80, alice_tx 107 deposit (1/2) 90, alice_tx 108 deposit (1/2) 100,
      alice_tx 109 deposit (1/2) 110, alice_tx 110 deposit (1/2) 120]"

lemmas ex_defs = alice_def alice_row_def alice_database_def alice_dashboard_def literals_def
  Number_table_def from_json_table_def drawn_def alice_tx_def empty_database_def


section \<open>Properties\<close>

subsection \<open>What an insert and a submission can do\<close>

lemma update_balances_checks:
  "update_balances trg new ps = Inr ps' \<Longrightarrow> list_all balance_checks ps \<Longrightarrow> list_all balance_checks ps'"
proof (induction ps arbitrary: ps')
  case Nil
  then show ?case by simp
next
  case (Cons r rs)
  then show ?case
    by (auto simp: balance_checks_def split: if_splits sum.splits prod.splits)
qed

lemma update_balances_account:
  assumes "update_balances trg new ps = Inr ps'" and "user_id new = Some u"
    and "find (\<lambda>r. p_id r = u) ps = Some r"
  shows "\<exists>b c. trg new (p_btc_balance r, p_usd_balance r) = Inr (b, c)
           \<and> find (\<lambda>r. p_id r = u) ps' = Some (r\<lparr>p_btc_balance := b, p_usd_balance := c\<rparr>)"
  using assms
proof (induction ps arbitrary: ps')
  case Nil
  then show ?case by simp
next
  case (Cons q qs)
  show ?case
  proof (cases "p_id q = u")
    case True
    with Cons.prems show ?thesis
      by (auto split: sum.splits prod.splits if_splits)
  next
    case False
    with Cons.prems obtain qs' where qs': "update_balances trg new qs = Inr qs'" "ps' = q # qs'"
      by (auto split: sum.splits)
    from False Cons.prems have "find (\<lambda>r. p_id r = u) qs = Some r" by simp
    from Cons.IH [OF qs'(1) Cons.prems(2) this] False qs'(2) show ?thesis by simp
  qed
qed

lemma update_balances_no_trigger:
  "update_balances no_trigger new ps = Inr ps' \<Longrightarrow> ps' = ps"
  by (induction ps arbitrary: ps') (auto simp: no_trigger_def split: if_splits sum.splits)

lemma insert_transactions_Inr:
  assumes "insert_transactions trg uid e v db = Inr db'"
  shows "\<exists>a ps. uid \<noteq> None \<and> i_user_id v = uid \<and> i_amount v = Some a \<and>
           gen_random_uuid e \<notin> t_id ` set (transactions_table db) \<and>
           uid \<in> Some ` p_id ` set (profiles_table db) \<and>
           update_balances trg
             \<lparr>t_id = gen_random_uuid e, user_id = uid, t_type = i_type v, t_amount = a,
              t_currency = i_currency v,
              t_status = (case i_status v of None \<Rightarrow> pending | Some s \<Rightarrow> s),
              t_created_at = now e\<rparr> (profiles_table db) = Inr ps \<and>
           db' = db\<lparr>profiles_table := ps,
                    transactions_table := transactions_table db @
                      [\<lparr>t_id = gen_random_uuid e, user_id = uid, t_type = i_type v, t_amount = a,
                        t_currency = i_currency v,
                        t_status = (case i_status v of None \<Rightarrow> pending | Some s \<Rightarrow> s),
                        t_created_at = now e\<rparr>]\<rparr>"
  using assms
  by (auto simp: insert_transactions_def Let_def split: if_splits option.splits sum.splits)

lemma valid_amount:
  "\<not> isNaN n \<Longrightarrow> \<not> js_le n (Num 0) \<Longrightarrow> n = Infinity \<or> (\<exists>a. n = Num a \<and> 0 < a)"
  by (cases n) (auto simp: isNaN_def js_le_def)

text \<open>
  The four ways \<open>handleTransaction\<close> ends: the amount is refused, the withdrawal is
  refused, the store refuses the insert, or the row is stored and the dashboard reloads.
\<close>

lemma handleTransaction_cases:
  assumes "handleTransaction js trg e ty (st, db) = (out, st', db')"
  shows "(out = [toast_error ''Please enter a valid amount''] \<and> st' = st \<and> db' = db)
       \<or> (out = [toast_error ''Insufficient balance''] \<and> st' = st \<and> db' = db)
       \<or> (out = [toast_error (''Failed to process '' @ type_name ty)] \<and> db' = db)
       \<or> (\<exists>a. amount st \<noteq> [] \<and> Number js (amount st) = Num a \<and> 0 < a \<and>
            insert_transactions trg (user st) e
              \<lparr>i_user_id = user st, i_type = ty, i_amount = Some a,
               i_currency = BTC, i_status = Some completed\<rparr> db = Inr db' \<and>
            hd out = toast_success (type_name ty @ '' successful'') \<and>
            st' = (snd (fetchTransactions (snd (fetchProfile js (st\<lparr>loading := True, amount := []\<rparr>) db')) db'))\<lparr>loading := False\<rparr>)"
proof (cases "amount st = [] \<or> isNaN (Number js (amount st)) \<or> js_le (Number js (amount st)) (Num 0)")
  case True
  with assms show ?thesis by (auto simp: handleTransaction_def)
next
  case False
  then have v: "Number js (amount st) = Infinity \<or> (\<exists>a. Number js (amount st) = Num a \<and> 0 < a)"
    using valid_amount by blast
  show ?thesis
  proof (cases "ty = withdrawal \<and> js_gt (Number js (amount st)) (case profile st of None \<Rightarrow> NaN | Some p \<Rightarrow> btc_balance p)")
    case True
    with False assms show ?thesis by (auto simp: handleTransaction_def)
  next
    case nw: False
    from v show ?thesis
    proof
      assume "Number js (amount st) = Infinity"
      with False nw assms show ?thesis
        by (auto simp: handleTransaction_def insert_transactions_def Let_def split: if_splits)
    next
      assume "\<exists>a. Number js (amount st) = Num a \<and> 0 < a"
      then obtain a where a: "Number js (amount st) = Num a" "0 < a" by blast
      with False nw assms show ?thesis
        by (auto simp: handleTransaction_def Let_def split: sum.splits)
    qed
  qed
qed

lemma accepted_submit:
  assumes "handleTransaction js trg e ty (st, db) = (out, st', db')"
    and "hd out = toast_success (type_name ty @ '' successful'')"
  shows "\<exists>a u ps. Number js (amount st) = Num a \<and> 0 < a \<and> user st = Some u
           \<and> Some u \<in> Some ` (p_id ` set (profiles_table db))
           \<and> update_balances trg
                \<lparr>t_id = gen_random_uuid e, user_id = Some u, t_type = ty, t_amount = a,
                 t_currency = BTC, t_status = completed, t_created_at = now e\<rparr>
                (profiles_table db) = Inr ps
           \<and> db' = db\<lparr>profiles_table := ps,
                transactions_table := transactions_table db @
                  [\<lparr>t_id = gen_random_uuid e, user_id = Some u, t_type = ty, t_amount = a,
                    t_currency = BTC, t_status = completed, t_created_at = now e\<rparr>]\<rparr>
           \<and> st' = (snd (fetchTransactions
                      (snd (fetchProfile js (st\<lparr>loading := True, amount := []\<rparr>) db')) db'))
                   \<lparr>loading := False\<rparr>"
proof -
  from handleTransaction_cases [OF assms(1)] assms(2)
  obtain a where a: "Number js (amount st) = Num a" "0 < a"
    and ins: "insert_transactions trg (user st) e
              \<lparr>i_user_id = user st, i_type = ty, i_amount = Some a,
               i_currency = BTC, i_status = Some completed\<rparr> db = Inr db'"
    and st': "st' = (snd (fetchTransactions
                      (snd (fetchProfile js (st\<lparr>loading := True, amount := []\<rparr>) db')) db'))
                   \<lparr>loading := False\<rparr>"
    by auto
  from insert_transactions_Inr [OF ins] obtain u where "user st = Some u" by auto
  with insert_transactions_Inr [OF ins] a st' show ?thesis by auto
qed

subsection \<open>Runs of the concrete account\<close>

lemma alice_tx_sel:
  "t_id (alice_tx i ty a t) = i" "user_id (alice_tx i ty a t) = Some 7"
  "t_created_at (alice_tx i ty a t) = t" "t_amount (alice_tx i ty a t) = a"
  "t_currency (alice_tx i ty a t) = BTC" "t_status (alice_tx i ty a t) = completed"
  "t_type (alice_tx i ty a t) = ty"
  by (simp_all add: alice_tx_def)

lemma signup_alice: "insert_auth_users 10 alice empty_database = Inr (alice_database 0 [])"
  by (simp add: ex_defs insert_auth_users_def handle_new_user_def)

lemma deposit_half:
  "handleTransaction literals ledger_trigger (drawn 20 100) deposit (alice_dashboard 0 ''0.5'', alice_database 0 [])
   = ([toast_success ''deposit successful''],
      (alice_dashboard (1/2) [])\<lparr>transactions := [alice_tx 100 deposit (1/2) 20]\<rparr>,
      alice_database (1/2) [alice_tx 100 deposit (1/2) 20])"
  by (simp add: ex_defs handleTransaction_def insert_transactions_def isNaN_def js_le_def js_gt_def
      ledger_trigger_def applyDelta_def fetchProfile_def fetchTransactions_def order_created_at_desc_def)

lemma deposit_again:
  "handleTransaction literals ledger_trigger (drawn 30 101) deposit
     (alice_dashboard (1/2) ''0.5'', alice_database (1/2) [alice_tx 100 deposit (1/2) 20])
   = ([toast_success ''deposit successful''],
      (alice_dashboard 1 [])\<lparr>transactions :=
         [alice_tx 101 deposit (1/2) 30, alice_tx 100 deposit (1/2) 20]\<rparr>,
      alice_database 1 [alice_tx 100 deposit (1/2) 20, alice_tx 101 deposit (1/2) 30])"
  by (simp add: ex_defs handleTransaction_def insert_transactions_def isNaN_def js_le_def js_gt_def
      ledger_trigger_def applyDelta_def fetchProfile_def fetchTransactions_def order_created_at_desc_def)

lemma deposit_step:
  assumes "i \<notin> t_id ` set ts" and "0 \<le> b"
  shows "snd (snd (handleTransaction literals ledger_trigger (drawn t i) deposit
                     (alice_dashboard c ''0.5'', alice_database b ts)))
         = alice_database (b + 1/2) (ts @ [alice_tx i deposit (1/2) t])"
  using assms
  by (simp add: ex_defs handleTransaction_def insert_transactions_def isNaN_def js_le_def js_gt_def
      ledger_trigger_def applyDelta_def Let_def)

lemma fetch_alice:
  "transactions (snd (fetchTransactions (alice_dashboard c s) (alice_database b ts)))
   = take 10 (order_created_at_desc ts)"
  if "\<forall>t \<in> set ts. user_id t = Some 7"
proof -
  from that have "filter (\<lambda>t. user_id t = Some 7) ts = ts" by (simp add: filter_id_conv)
  then show ?thesis
    by (simp add: fetchTransactions_def alice_dashboard_def alice_database_def)
qed

lemma run_eleven:
  "run literals ledger_trigger eleven_deposits (alice_database 0 [])
   = alice_database (11/2) eleven_rows"
  unfolding eleven_deposits_def eleven_rows_def
  by (simp add: deposit_step alice_tx_sel)

subsection \<open>Balances stay non-negative\<close>

lemma insert_transactions_checks:
  "insert_transactions trg uid e v db = Inr db' \<Longrightarrow> list_all balance_checks (profiles_table db)
   \<Longrightarrow> list_all balance_checks (profiles_table db')"
  by (drule insert_transactions_Inr) (auto dest: update_balances_checks)

lemma handleTransaction_checks:
  assumes "list_all balance_checks (profiles_table db)"
  shows "list_all balance_checks (profiles_table (snd (snd (handleTransaction js trg e ty (st, db)))))"
proof -
  obtain out st' db' where r: "handleTransaction js trg e ty (st, db) = (out, st', db')"
    by (cases "handleTransaction js trg e ty (st, db)") auto
  from handleTransaction_cases [OF r] assms have "list_all balance_checks (profiles_table db')"
    by (auto dest: insert_transactions_checks)
  with r show ?thesis by simp
qed

lemma insert_auth_users_checks:
  "insert_auth_users t new db = Inr db' \<Longrightarrow> list_all balance_checks (profiles_table db)
   \<Longrightarrow> list_all balance_checks (profiles_table db')"
  by (auto simp: insert_auth_users_def handle_new_user_def Let_def balance_checks_def split: if_splits)

lemma run_checks:
  "list_all balance_checks (profiles_table db) \<Longrightarrow> list_all balance_checks (profiles_table (run js trg cs db))"
proof (induction cs arbitrary: db)
  case Nil
  then show ?case by simp
next
  case (Cons c cs)
  show ?case
  proof (cases c)
    case (SignUp t new)
    with Cons show ?thesis
      by (auto split: sum.splits dest: insert_auth_users_checks)
  next
    case (Submit e ty st)
    with Cons show ?thesis
      by (simp add: handleTransaction_checks)
  qed
qed

text \<open>
  Claim C1. In every history that starts from the empty database (registrations, and
  deposits and withdrawals submitted from any dashboard state), whatever the balance
  trigger computes, every account's \<open>btc_balance\<close> and \<open>usd_balance\<close> is non-negative
  after the last operation, hence after each one.
\<close>

theorem balances_never_negative:
  "r \<in> set (profiles_table (run js trg cs empty_database))
   \<Longrightarrow> 0 \<le> p_btc_balance r \<and> 0 \<le> p_usd_balance r"
proof -
  assume r: "r \<in> set (profiles_table (run js trg cs empty_database))"
  have "list_all balance_checks (profiles_table (run js trg cs empty_database))"
    by (rule run_checks) (simp add: empty_database_def)
  with r have "balance_checks r" by (simp add: list_all_iff)
  then show ?thesis by (simp add: balance_checks_def)
qed

theorem balances_never_negative_witness:
  "alice_row (1/2) \<in> set (profiles_table
      (run literals ledger_trigger
         [SignUp 10 alice, Submit (drawn 20 100) deposit (alice_dashboard 0 ''0.5'')] empty_database))
   \<and> 0 \<le> p_btc_balance (alice_row (1/2)) \<and> 0 \<le> p_usd_balance (alice_row (1/2))"
proof -
  have "alice_row (1/2) \<in> set (profiles_table
      (run literals ledger_trigger
         [SignUp 10 alice, Submit (drawn 20 100) deposit (alice_dashboard 0 ''0.5'')] empty_database))"
    by (simp add: signup_alice deposit_half) (simp add: alice_database_def)
  from this balances_never_negative [OF this] show ?thesis by simp
qed

subsection \<open>Refused submissions\<close>

text \<open>
  The balance the dashboard holds is the one of the account's row at the time
  \<open>fetchProfile\<close> last succeeded, read as a JSON number.
\<close>

lemma find_single: "filter P xs = [r] \<Longrightarrow> find P xs = Some r"
  by (induction xs) (auto split: if_splits)

lemma fetchProfile_loads_row:
  assumes "fetchProfile js st db = ([], st')"
  shows "\<exists>u r. user st = Some u \<and> account db u = Some r
           \<and> profile st' = Some \<lparr>btc_balance = from_json js (p_btc_balance r),
                                 usd_balance = from_json js (p_usd_balance r)\<rparr>"
proof -
  from assms obtain r where f: "filter (\<lambda>r. Some (p_id r) = user st) (profiles_table db) = [r]"
    and st': "st' = st\<lparr>profile := Some \<lparr>btc_balance = from_json js (p_btc_balance r),
                                         usd_balance = from_json js (p_usd_balance r)\<rparr>\<rparr>"
    by (auto simp: fetchProfile_def split: list.splits)
  from f have "r \<in> set (filter (\<lambda>r. Some (p_id r) = user st) (profiles_table db))" by simp
  then have u: "user st = Some (p_id r)" by simp
  then have "filter (\<lambda>q. p_id q = p_id r) (profiles_table db) = [r]"
    using f by simp
  then have "find (\<lambda>q. p_id q = p_id r) (profiles_table db) = Some r"
    by (rule find_single)
  with u st' show ?thesis by (auto simp: account_def)
qed

text \<open>
  Claim C2, as stated: a withdrawal above the account's current balance is refused with
  ``Insufficient balance'' and nothing changes. The test reads the balance the dashboard
  holds, not the account's row. A dashboard that loaded the balance 1 keeps it while
  another dashboard of the same user withdraws 0.5; a withdrawal of 1.0 from the first one
  then passes the test and the insert is sent. With the schema as migrated (where a
  balance other than 0 comes from an update that the policy ``Users can update own
  profile'' lets through) the row is stored and the toast reports success; with the
  ledger's trigger the store refuses and the toast is the general failure.
\<close>

theorem stale_balance_withdrawal_sent:
  "snd (fetchProfile literals (alice_dashboard 0 ''1.0'')
         (alice_database 1 [alice_tx 100 deposit (1/2) 20, alice_tx 101 deposit (1/2) 30]))
     = alice_dashboard 1 ''1.0''
   \<and> snd (snd (handleTransaction literals ledger_trigger (drawn 40 102) withdrawal
         (alice_dashboard 1 ''0.5'',
          alice_database 1 [alice_tx 100 deposit (1/2) 20, alice_tx 101 deposit (1/2) 30])))
     = alice_database (1/2) three_rows
   \<and> account (alice_database (1/2) three_rows) 7 = Some (alice_row (1/2))
   \<and> js_gt (Number literals (amount (alice_dashboard 1 ''1.0'')))
        (Num (p_btc_balance (alice_row (1/2))))
   \<and> fst (handleTransaction literals no_trigger (drawn 50 103) withdrawal
         (alice_dashboard 1 ''1.0'', alice_database (1/2) three_rows))
     = [toast_success ''withdrawal successful'']
   \<and> transactions_table (snd (snd (handleTransaction literals no_trigger (drawn 50 103) withdrawal
         (alice_dashboard 1 ''1.0'', alice_database (1/2) three_rows))))
     = three_rows @ [alice_tx 103 withdrawal 1 50]
   \<and> fst (handleTransaction literals ledger_trigger (drawn 50 103) withdrawal
         (alice_dashboard 1 ''1.0'', alice_database (1/2) three_rows))
     = [toast_error ''Failed to process withdrawal'']"
proof -
  have "snd (fetchProfile literals (alice_dashboard 0 ''1.0'')
         (alice_database 1 [alice_tx 100 deposit (1/2) 20, alice_tx 101 deposit (1/2) 30]))
     = alice_dashboard 1 ''1.0''"
    by (simp add: fetchProfile_def ex_defs)
  moreover have "snd (snd (handleTransaction literals ledger_trigger (drawn 40 102) withdrawal
         (alice_dashboard 1 ''0.5'',
          alice_database 1 [alice_tx 100 deposit (1/2) 20, alice_tx 101 deposit (1/2) 30])))
     = alice_database (1/2) three_rows"
    by (simp add: ex_defs three_rows_def handleTransaction_def insert_transactions_def isNaN_def
        js_le_def js_gt_def ledger_trigger_def applyDelta_def Let_def)
  moreover have "account (alice_database (1/2) three_rows) 7 = Some (alice_row (1/2))"
    by (simp add: account_def alice_database_def alice_row_def)
  moreover have "js_gt (Number literals (amount (alice_dashboard 1 ''1.0'')))
        (Num (p_btc_balance (alice_row (1/2))))"
    by (simp add: js_gt_def ex_defs)
  moreover have "fst (handleTransaction literals no_trigger (drawn 50 103) withdrawal
         (alice_dashboard 1 ''1.0'', alice_database (1/2) three_rows))
     = [toast_success ''withdrawal successful'']"
    by (simp add: ex_defs three_rows_def handleTransaction_def insert_transactions_def isNaN_def
        js_le_def js_gt_def no_trigger_def fetchProfile_def fetchTransactions_def Let_def)
  moreover have "transactions_table (snd (snd (handleTransaction literals no_trigger (drawn 50 103) withdrawal
         (alice_dashboard 1 ''1.0'', alice_database (1/2) three_rows))))
     = three_rows @ [alice_tx 103 withdrawal 1 50]"
    by (simp add: ex_defs three_rows_def handleTransaction_def insert_transactions_def isNaN_def
        js_le_def js_gt_def no_trigger_def Let_def)
  moreover have "fst (handleTransaction literals ledger_trigger (drawn 50 103) withdrawal
         (alice_dashboard 1 ''1.0'', alice_database (1/2) three_rows))
     = [toast_error ''Failed to process withdrawal'']"
    by (simp add: ex_defs three_rows_def handleTransaction_def insert_transactions_def isNaN_def
        js_le_def js_gt_def ledger_trigger_def applyDelta_def Let_def)
  ultimately show ?thesis by blast
qed

text \<open>
  Claim C2, amended. A withdrawal whose amount exceeds the BTC balance the dashboard holds
  for the account ends with ``Insufficient balance'' and leaves the database and the
  dashboard as they were, whatever the trigger. A withdrawal whose amount exceeds the BTC
  balance of the account's row leaves the balances as they were from any dashboard state:
  with the schema as migrated no row of \<open>profiles\<close> changes, and with the ledger's trigger
  the database does not change at all.
\<close>

theorem withdrawal_over_balance_rejected:
  "(profile st = Some p \<and> btc_balance p = Num b \<and> 0 \<le> b \<and> amount st \<noteq> []
      \<and> js_gt (Number js (amount st)) (Num b)
    \<longrightarrow> handleTransaction js trg e withdrawal (st, db)
         = ([toast_error ''Insufficient balance''], st, db))
   \<and> (user st = Some u \<and> account db u = Some r \<and> Number js (amount st) = Num a
      \<and> p_btc_balance r < a
    \<longrightarrow> profiles_table (snd (snd (handleTransaction js no_trigger e withdrawal (st, db))))
         = profiles_table db
       \<and> snd (snd (handleTransaction js ledger_trigger e withdrawal (st, db))) = db)"
proof (intro conjI impI)
  assume h: "profile st = Some p \<and> btc_balance p = Num b \<and> 0 \<le> b \<and> amount st \<noteq> []
      \<and> js_gt (Number js (amount st)) (Num b)"
  then have "\<not> isNaN (Number js (amount st))" "\<not> js_le (Number js (amount st)) (Num 0)"
    by (cases "Number js (amount st)"; simp add: js_gt_def isNaN_def js_le_def)+
  with h show "handleTransaction js trg e withdrawal (st, db)
         = ([toast_error ''Insufficient balance''], st, db)"
    by (simp add: handleTransaction_def)
next
  assume "user st = Some u \<and> account db u = Some r \<and> Number js (amount st) = Num a
      \<and> p_btc_balance r < a"
  obtain out st' db' where r: "handleTransaction js no_trigger e withdrawal (st, db) = (out, st', db')"
    by (cases "handleTransaction js no_trigger e withdrawal (st, db)") auto
  from handleTransaction_cases [OF r] have "profiles_table db' = profiles_table db"
    by (auto dest!: insert_transactions_Inr update_balances_no_trigger)
  with r show "profiles_table (snd (snd (handleTransaction js no_trigger e withdrawal (st, db))))
         = profiles_table db"
    by simp
next
  assume h: "user st = Some u \<and> account db u = Some r \<and> Number js (amount st) = Num a
      \<and> p_btc_balance r < a"
  obtain out st' db' where r: "handleTransaction js ledger_trigger e withdrawal (st, db) = (out, st', db')"
    by (cases "handleTransaction js ledger_trigger e withdrawal (st, db)") auto
  have "db' = db"
  proof (rule ccontr)
    assume "db' \<noteq> db"
    with handleTransaction_cases [OF r] obtain a' where a': "Number js (amount st) = Num a'"
      and ins: "insert_transactions ledger_trigger (user st) e
              \<lparr>i_user_id = user st, i_type = withdrawal, i_amount = Some a',
               i_currency = BTC, i_status = Some completed\<rparr> db = Inr db'"
      by auto
    from a' h have aa: "a' = a" by simp
    let ?new = "\<lparr>t_id = gen_random_uuid e, user_id = user st, t_type = withdrawal, t_amount = a,
                 t_currency = BTC, t_status = completed, t_created_at = now e\<rparr>"
    from insert_transactions_Inr [OF ins] aa obtain ps
      where upd: "update_balances ledger_trigger ?new (profiles_table db) = Inr ps"
      by auto
    from h have f: "find (\<lambda>r. p_id r = u) (profiles_table db) = Some r" "user_id ?new = Some u"
      by (simp_all add: account_def)
    from update_balances_account [OF upd f(2) f(1)]
    obtain b c where "ledger_trigger ?new (p_btc_balance r, p_usd_balance r) = Inr (b, c)"
      by blast
    with h show False
      by (simp add: ledger_trigger_def applyDelta_def)
  qed
  with r show "snd (snd (handleTransaction js ledger_trigger e withdrawal (st, db))) = db"
    by simp
qed

theorem withdrawal_over_balance_rejected_witness:
  "js_gt (Number literals (amount (alice_dashboard (1/2) ''1.0''))) (Num (1/2))
   \<and> handleTransaction literals ledger_trigger (drawn 30 101) withdrawal
       (alice_dashboard (1/2) ''1.0'', alice_database (1/2) [alice_tx 100 deposit (1/2) 20])
     = ([toast_error ''Insufficient balance''], alice_dashboard (1/2) ''1.0'',
        alice_database (1/2) [alice_tx 100 deposit (1/2) 20])
   \<and> account (alice_database (1/2) three_rows) 7 = Some (alice_row (1/2))
   \<and> Number literals (amount (alice_dashboard 1 ''1.0'')) = Num 1
   \<and> p_btc_balance (alice_row (1/2)) < 1
   \<and> profiles_table (snd (snd (handleTransaction literals no_trigger (drawn 50 103) withdrawal
         (alice_dashboard 1 ''1.0'', alice_database (1/2) three_rows))))
     = profiles_table (alice_database (1/2) three_rows)
   \<and> snd (snd (handleTransaction literals ledger_trigger (drawn 50 103) withdrawal
         (alice_dashboard 1 ''1.0'', alice_database (1/2) three_rows)))
     = alice_database (1/2) three_rows"
proof -
  have g: "js_gt (Number literals (amount (alice_dashboard (1/2) ''1.0''))) (Num (1/2))"
    by (simp add: js_gt_def ex_defs)
  have p: "profile (alice_dashboard (1/2) ''1.0'') = Some \<lparr>btc_balance = Num (1/2), usd_balance = Num 0\<rparr>"
    "amount (alice_dashboard (1/2) ''1.0'') \<noteq> []"
    by (simp_all add: alice_dashboard_def)
  have a: "user (alice_dashboard 1 ''1.0'') = Some 7"
    "account (alice_database (1/2) three_rows) 7 = Some (alice_row (1/2))"
    "Number literals (amount (alice_dashboard 1 ''1.0'')) = Num 1"
    "p_btc_balance (alice_row (1/2)) < 1"
    by (simp_all add: account_def ex_defs)
  from withdrawal_over_balance_rejected [of "alice_dashboard (1/2) ''1.0''"
      "\<lparr>btc_balance = Num (1/2), usd_balance = Num 0\<rparr>" "1/2" literals ledger_trigger
      "drawn 30 101" "alice_database (1/2) [alice_tx 100 deposit (1/2) 20]"] g p
  have first: "handleTransaction literals ledger_trigger (drawn 30 101) withdrawal
       (alice_dashboard (1/2) ''1.0'', alice_database (1/2) [alice_tx 100 deposit (1/2) 20])
     = ([toast_error ''Insufficient balance''], alice_dashboard (1/2) ''1.0'',
        alice_database (1/2) [alice_tx 100 deposit (1/2) 20])"
    by simp
  from withdrawal_over_balance_rejected [of "alice_dashboard 1 ''1.0''" _ _ literals _
      "drawn 50 103" "alice_database (1/2) three_rows" 7 "alice_row (1/2)" 1] a
  have "profiles_table (snd (snd (handleTransaction literals no_trigger (drawn 50 103) withdrawal
         (alice_dashboard 1 ''1.0'', alice_database (1/2) three_rows))))
     = profiles_table (alice_database (1/2) three_rows)
   \<and> snd (snd (handleTransaction literals ledger_trigger (drawn 50 103) withdrawal
         (alice_dashboard 1 ''1.0'', alice_database (1/2) three_rows)))
     = alice_database (1/2) three_rows"
    by simp
  with g first a show ?thesis by simp
qed

text \<open>
  Claim C3. A deposit or withdrawal whose amount is empty, not a number, zero or negative
  ends with the toast ``Please enter a valid amount''; no transaction is stored and no
  balance changes.
\<close>

theorem invalid_amount_rejected:
  assumes "amount st = [] \<or> Number js (amount st) = NaN \<or> Number js (amount st) = NegInfinity
           \<or> (\<exists>x. Number js (amount st) = Num x \<and> x \<le> 0)"
  shows "handleTransaction js trg e type (st, db)
         = ([toast_error ''Please enter a valid amount''], st, db)"
proof -
  from assms have "amount st = [] \<or> isNaN (Number js (amount st)) \<or> js_le (Number js (amount st)) (Num 0)"
    by (auto simp: isNaN_def js_le_def)
  then show ?thesis by (simp add: handleTransaction_def)
qed

theorem invalid_amount_rejected_witness:
  "handleTransaction literals ledger_trigger (drawn 30 101) deposit
     (alice_dashboard (1/2) ''-1'', alice_database (1/2) [alice_tx 100 deposit (1/2) 20])
   = ([toast_error ''Please enter a valid amount''], alice_dashboard (1/2) ''-1'',
      alice_database (1/2) [alice_tx 100 deposit (1/2) 20])"
  by (rule invalid_amount_rejected) (simp add: alice_dashboard_def literals_def Number_table_def)

text \<open>
  An amount that reads as \<open>Infinity\<close> passes that guard; it is sent as \<open>null\<close> and the
  store refuses it.
\<close>

lemma infinite_amount_refused_by_store:
  assumes "amount st \<noteq> []" and "Number js (amount st) = Infinity"
  shows "handleTransaction js trg e deposit (st, db)
         = ([toast_error ''Failed to process deposit''], st\<lparr>loading := False\<rparr>, db)"
  using assms
  by (simp add: handleTransaction_def isNaN_def js_le_def insert_transactions_def)

subsection \<open>Stored amounts\<close>

text \<open>
  Claim C7, as stated: every transaction row has a positive amount however it was
  created. The table only asks for a non-null amount: the insert policy lets a signed-in
  user store a row of their own with amount \<open>-1\<close>, under the schema as migrated and under
  the ledger's trigger alike.
\<close>

theorem negative_amount_row_accepted:
  "insert_transactions no_trigger (Some 7) (drawn 20 100)
     \<lparr>i_user_id = Some 7, i_type = deposit, i_amount = Some (- 1), i_currency = BTC,
      i_status = Some completed\<rparr> (alice_database 0 [])
   = Inr (alice_database 0 [alice_tx 100 deposit (- 1) 20])
   \<and> insert_transactions ledger_trigger (Some 7) (drawn 20 100)
     \<lparr>i_user_id = Some 7, i_type = withdrawal, i_amount = Some (- 1), i_currency = BTC,
      i_status = Some completed\<rparr> (alice_database 0 [])
   = Inr (alice_database 1 [alice_tx 100 withdrawal (- 1) 20])
   \<and> \<not> 0 < t_amount (alice_tx 100 deposit (- 1) 20)
   \<and> \<not> 0 < t_amount (alice_tx 100 withdrawal (- 1) 20)"
  by (simp add: ex_defs insert_transactions_def no_trigger_def ledger_trigger_def applyDelta_def)

text \<open>
  Claim C7, amended. A row stored by \<open>handleTransaction\<close> has a positive amount, the
  number read from the form.
\<close>

theorem submitted_amount_positive:
  assumes "handleTransaction js trg e type (st, db) = (out, st', db')"
  shows "transactions_table db' = transactions_table db
          \<or> (\<exists>t. transactions_table db' = transactions_table db @ [t] \<and> 0 < t_amount t
                 \<and> Number js (amount st) = Num (t_amount t))"
  using handleTransaction_cases [OF assms]
  by (auto dest!: insert_transactions_Inr)

theorem submitted_amount_positive_witness:
  "transactions_table (alice_database (1/2) [alice_tx 100 deposit (1/2) 20])
     = transactions_table (alice_database 0 []) @ [alice_tx 100 deposit (1/2) 20]
   \<and> 0 < t_amount (alice_tx 100 deposit (1/2) 20)
   \<and> Number literals (amount (alice_dashboard 0 ''0.5'')) = Num (t_amount (alice_tx 100 deposit (1/2) 20))"
  using submitted_amount_positive [OF deposit_half]
  by (simp add: alice_database_def alice_tx_def alice_dashboard_def literals_def Number_table_def)

subsection \<open>Provisioning\<close>

text \<open>
  Claim C9. A registration that succeeds has run \<open>handle_new_user\<close> once: it adds one row
  to \<open>profiles\<close>, and the identity then has exactly one account, with both balances zero.
\<close>

theorem provisioning_one_zero_account:
  assumes "insert_auth_users t new db = Inr db'"
  shows "filter (\<lambda>r. p_id r = u_id new) (profiles_table db')
           = [\<lparr>p_id = u_id new, username = email new, p_btc_balance = 0, p_usd_balance = 0,
               p_created_at = t, updated_at = t\<rparr>]
         \<and> length (profiles_table db') = Suc (length (profiles_table db))
         \<and> auth_users_table db' = auth_users_table db @ [new]"
proof -
  from assms have fresh: "u_id new \<notin> p_id ` set (profiles_table db)"
    and db': "db' = db\<lparr>auth_users_table := auth_users_table db @ [new],
                       profiles_table := profiles_table db @
                         [\<lparr>p_id = u_id new, username = email new, p_btc_balance = 0,
                           p_usd_balance = 0, p_created_at = t, updated_at = t\<rparr>]\<rparr>"
    by (auto simp: insert_auth_users_def handle_new_user_def Let_def split: if_splits)
  from fresh have "filter (\<lambda>r. p_id r = u_id new) (profiles_table db) = []"
    by (fastforce simp: filter_empty_conv image_iff)
  with db' show ?thesis by simp
qed

theorem provisioning_one_zero_account_witness:
  "insert_auth_users 10 alice empty_database = Inr (alice_database 0 [])
   \<and> filter (\<lambda>r. p_id r = u_id alice) (profiles_table (alice_database 0 [])) = [alice_row 0]
   \<and> length (profiles_table (alice_database 0 [])) = Suc (length (profiles_table empty_database))
   \<and> auth_users_table (alice_database 0 []) = auth_users_table empty_database @ [alice]"
  using provisioning_one_zero_account [OF signup_alice] signup_alice
  by (simp add: alice_row_def alice_def)

subsection \<open>BTC only\<close>

lemma usd_irrelevant:
  "fst (handleTransaction js trg e ty (st\<lparr>profile := map_option (\<lambda>p. p\<lparr>usd_balance := x\<rparr>) (profile st)\<rparr>, db))
     = fst (handleTransaction js trg e ty (st, db))
   \<and> snd (snd (handleTransaction js trg e ty (st\<lparr>profile := map_option (\<lambda>p. p\<lparr>usd_balance := x\<rparr>) (profile st)\<rparr>, db)))
     = snd (snd (handleTransaction js trg e ty (st, db)))"
  by (cases "profile st")
     (auto simp: handleTransaction_def Let_def fetchProfile_def fetchTransactions_def
           split: sum.splits list.splits option.splits)

text \<open>
  Claim C10. A submission stores at most one row, and that row's currency is BTC. Its
  toasts and its effect on the database do not depend on \<open>usd_balance\<close>: the
  insufficient-funds test reads \<open>btc_balance\<close> alone.
\<close>

theorem submit_is_btc_only:
  assumes "handleTransaction js trg e type (st, db) = (out, st', db')"
  shows "(transactions_table db' = transactions_table db
          \<or> (\<exists>t. transactions_table db' = transactions_table db @ [t] \<and> t_currency t = BTC))
       \<and> fst (handleTransaction js trg e type
                (st\<lparr>profile := map_option (\<lambda>p. p\<lparr>usd_balance := x\<rparr>) (profile st)\<rparr>, db)) = out
       \<and> snd (snd (handleTransaction js trg e type
                (st\<lparr>profile := map_option (\<lambda>p. p\<lparr>usd_balance := x\<rparr>) (profile st)\<rparr>, db))) = db'"
proof -
  from handleTransaction_cases [OF assms]
  have "transactions_table db' = transactions_table db
          \<or> (\<exists>t. transactions_table db' = transactions_table db @ [t] \<and> t_currency t = BTC)"
    by (auto dest!: insert_transactions_Inr)
  with usd_irrelevant [of js trg e type x st db] assms show ?thesis by simp
qed

theorem submit_is_btc_only_witness:
  "transactions_table (alice_database (1/2) [alice_tx 100 deposit (1/2) 20])
     = transactions_table (alice_database 0 []) @ [alice_tx 100 deposit (1/2) 20]
   \<and> t_currency (alice_tx 100 deposit (1/2) 20) = BTC
   \<and> fst (handleTransaction literals ledger_trigger (drawn 20 100) deposit
        ((alice_dashboard 0 ''0.5'')\<lparr>profile := map_option (\<lambda>p. p\<lparr>usd_balance := Num 9\<rparr>)
            (profile (alice_dashboard 0 ''0.5''))\<rparr>, alice_database 0 []))
      = [toast_success ''deposit successful'']
   \<and> snd (snd (handleTransaction literals ledger_trigger (drawn 20 100) deposit
        ((alice_dashboard 0 ''0.5'')\<lparr>profile := map_option (\<lambda>p. p\<lparr>usd_balance := Num 9\<rparr>)
            (profile (alice_dashboard 0 ''0.5''))\<rparr>, alice_database 0 [])))
      = alice_database (1/2) [alice_tx 100 deposit (1/2) 20]"
  using submit_is_btc_only [OF deposit_half, of "Num 9"]
  by (simp add: alice_database_def alice_tx_def)

subsection \<open>The recent transactions\<close>

lemma newest_first_order: "newest_first (order_created_at_desc ts)"
proof -
  have "sorted (map t_created_at (sort_key t_created_at (rev ts)))" by simp
  then show ?thesis
    by (simp add: newest_first_def order_created_at_desc_def sorted_wrt_rev sorted_wrt_map)
qed

lemma distinct_map_sort_key: "distinct (map f (sort_key f xs)) = distinct (map f xs)"
  by (induction xs) (simp_all add: distinct_insort_key)

lemma strictly_newest_first_order:
  assumes "distinct (map t_created_at ts)"
  shows "strictly_newest_first (order_created_at_desc ts)"
proof -
  have "sorted (map t_created_at (sort_key t_created_at (rev ts)))" by simp
  moreover from assms have "distinct (map t_created_at (sort_key t_created_at (rev ts)))"
    by (simp add: distinct_map_sort_key rev_map [symmetric])
  ultimately have "sorted_wrt (<) (map t_created_at (sort_key t_created_at (rev ts)))"
    by (simp add: strict_sorted_iff)
  then show ?thesis
    by (simp add: strictly_newest_first_def order_created_at_desc_def sorted_wrt_rev sorted_wrt_map)
qed

text \<open>
  Claim C6, as stated: the list is strictly ordered by \<open>created_at\<close> descending. Two
  deposits stamped with the same \<open>now()\<close> are both listed, with equal \<open>created_at\<close>.
\<close>

theorem equal_created_at_not_strict:
  "run literals ledger_trigger
     [SignUp 10 alice,
      Submit (drawn 20 100) deposit (alice_dashboard 0 ''0.5''),
      Submit (drawn 20 101) deposit (alice_dashboard (1/2) ''0.5'')] empty_database
   = alice_database 1 [alice_tx 100 deposit (1/2) 20, alice_tx 101 deposit (1/2) 20]
   \<and> map t_created_at (transactions (snd (fetchTransactions (alice_dashboard 1 [])
        (alice_database 1 [alice_tx 100 deposit (1/2) 20, alice_tx 101 deposit (1/2) 20]))))
     = [20, 20]
   \<and> \<not> strictly_newest_first (transactions (snd (fetchTransactions (alice_dashboard 1 [])
        (alice_database 1 [alice_tx 100 deposit (1/2) 20, alice_tx 101 deposit (1/2) 20]))))"
proof -
  have "run literals ledger_trigger
     [SignUp 10 alice,
      Submit (drawn 20 100) deposit (alice_dashboard 0 ''0.5''),
      Submit (drawn 20 101) deposit (alice_dashboard (1/2) ''0.5'')] empty_database
   = alice_database 1 [alice_tx 100 deposit (1/2) 20, alice_tx 101 deposit (1/2) 20]"
    by (simp add: signup_alice deposit_step alice_tx_sel)
  moreover have l: "transactions (snd (fetchTransactions (alice_dashboard 1 [])
        (alice_database 1 [alice_tx 100 deposit (1/2) 20, alice_tx 101 deposit (1/2) 20])))
     = [alice_tx 100 deposit (1/2) 20, alice_tx 101 deposit (1/2) 20]"
    by (simp add: fetch_alice order_created_at_desc_def alice_tx_sel)
  moreover have "\<not> strictly_newest_first [alice_tx 100 deposit (1/2) 20, alice_tx 101 deposit (1/2) 20]"
    by (simp add: strictly_newest_first_def alice_tx_sel)
  ultimately show ?thesis by (simp add: alice_tx_sel)
qed

text \<open>
  Claim C6, amended. For a signed-in user \<open>fetchTransactions\<close> succeeds and lists at most
  10 rows, newest first: \<open>created_at\<close> never increases along the list, and it decreases
  strictly when the user's rows carry pairwise distinct \<open>created_at\<close>.
\<close>

theorem recent_transactions_newest_first:
  assumes "user st = Some u"
  shows "fst (fetchTransactions st db) = []
       \<and> length (transactions (snd (fetchTransactions st db))) \<le> 10
       \<and> newest_first (transactions (snd (fetchTransactions st db)))
       \<and> (distinct (map t_created_at (filter (\<lambda>t. user_id t = Some u) (transactions_table db)))
          \<longrightarrow> strictly_newest_first (transactions (snd (fetchTransactions st db))))"
proof -
  let ?own = "filter (\<lambda>t. user_id t = Some u) (transactions_table db)"
  from assms have r: "fetchTransactions st db
      = ([], st\<lparr>transactions := take 10 (order_created_at_desc ?own)\<rparr>)"
    by (simp add: fetchTransactions_def)
  have "newest_first (take 10 (order_created_at_desc ?own))"
    using newest_first_order [of ?own] by (simp add: newest_first_def)
  moreover have "strictly_newest_first (take 10 (order_created_at_desc ?own))"
    if "distinct (map t_created_at ?own)"
    using strictly_newest_first_order [OF that] by (simp add: strictly_newest_first_def)
  ultimately show ?thesis using r by simp
qed

theorem recent_transactions_newest_first_witness:
  "user (alice_dashboard 1 []) = Some 7
   \<and> length (transactions (snd (fetchTransactions (alice_dashboard 1 [])
        (alice_database 1 [alice_tx 100 deposit (1/2) 20, alice_tx 101 deposit (1/2) 30])))) \<le> 10
   \<and> newest_first (transactions (snd (fetchTransactions (alice_dashboard 1 [])
        (alice_database 1 [alice_tx 100 deposit (1/2) 20, alice_tx 101 deposit (1/2) 30]))))
   \<and> distinct (map t_created_at (filter (\<lambda>t. user_id t = Some 7)
        (transactions_table (alice_database 1 [alice_tx 100 deposit (1/2) 20, alice_tx 101 deposit (1/2) 30]))))
   \<and> strictly_newest_first (transactions (snd (fetchTransactions (alice_dashboard 1 [])
        (alice_database 1 [alice_tx 100 deposit (1/2) 20, alice_tx 101 deposit (1/2) 30]))))"
proof -
  have u: "user (alice_dashboard 1 []) = Some 7" by (simp add: alice_dashboard_def)
  have d: "distinct (map t_created_at (filter (\<lambda>t. user_id t = Some 7)
        (transactions_table (alice_database 1 [alice_tx 100 deposit (1/2) 20, alice_tx 101 deposit (1/2) 30]))))"
    by (simp add: alice_database_def alice_tx_def)
  from recent_transactions_newest_first [OF u,
      of "alice_database 1 [alice_tx 100 deposit (1/2) 20, alice_tx 101 deposit (1/2) 30]"] u d
  show ?thesis by simp
qed

subsection \<open>Finding a stored transaction in the list\<close>

text \<open>
  The list is a rearrangement of the user's rows cut after the tenth. A row is among the
  first \<open>n\<close> of any newest-first arrangement when at most \<open>n\<close> rows, itself included, are
  stamped at or after it; rows with equal \<open>created_at\<close> may come in either order.
\<close>

lemma length_filter_insort_key:
  "length (filter P (insort_key f a ys)) = length (filter P (a # ys))"
  by (induction ys) auto

lemma length_filter_sort_key: "length (filter P (sort_key f xs)) = length (filter P xs)"
  by (induction xs) (simp_all add: length_filter_insort_key)

lemma length_filter_order:
  "length (filter P (order_created_at_desc ts)) = length (filter P ts)"
proof -
  have "length (filter P (rev (sort_key t_created_at (rev ts))))
        = length (filter P (sort_key t_created_at (rev ts)))"
    by (simp flip: rev_filter)
  also have "\<dots> = length (filter P (rev ts))" by (rule length_filter_sort_key)
  also have "\<dots> = length (filter P ts)" by (simp flip: rev_filter)
  finally show ?thesis by (simp add: order_created_at_desc_def)
qed

lemma set_order: "set (order_created_at_desc ts) = set ts"
  by (simp add: order_created_at_desc_def)

lemma newest_first_take_member:
  assumes "newest_first ys" and "x \<in> set ys"
    and "length (filter (\<lambda>y. t_created_at x \<le> t_created_at y) ys) \<le> n"
  shows "x \<in> set (take n ys)"
proof -
  let ?P = "\<lambda>y. t_created_at x \<le> t_created_at y"
  from assms(2) obtain i where i: "i < length ys" "ys ! i = x"
    by (auto simp: in_set_conv_nth)
  have "\<forall>y \<in> set (take (Suc i) ys). ?P y"
  proof
    fix y assume "y \<in> set (take (Suc i) ys)"
    then obtain j where j: "j < Suc i" "j < length ys" "ys ! j = y"
      by (auto simp: in_set_conv_nth)
    show "?P y"
    proof (cases "j = i")
      case True
      with i j show ?thesis by simp
    next
      case False
      with j have "j < i" by simp
      with assms(1) i have "t_created_at (ys ! i) \<le> t_created_at (ys ! j)"
        by (auto simp: newest_first_def sorted_wrt_iff_nth_less)
      with i j show ?thesis by simp
    qed
  qed
  then have "filter ?P (take (Suc i) ys) = take (Suc i) ys" by (simp add: filter_id_conv)
  moreover have "filter ?P ys = filter ?P (take (Suc i) ys) @ filter ?P (drop (Suc i) ys)"
    by (simp flip: filter_append)
  ultimately have "length (filter ?P ys) \<ge> length (take (Suc i) ys)" by simp
  with i(1) have "Suc i \<le> length (filter ?P ys)" by simp
  with assms(3) have "i < n" by simp
  with i have "i < length (take n ys)" "take n ys ! i = x" by simp_all
  then show ?thesis by (auto simp: in_set_conv_nth)
qed

lemma listed_if_among_newest:
  assumes "x \<in> set ts"
    and "length (filter (\<lambda>y. t_created_at x \<le> t_created_at y) ts) \<le> n"
  shows "x \<in> set (take n (order_created_at_desc ts))"
proof (rule newest_first_take_member)
  show "newest_first (order_created_at_desc ts)" by (rule newest_first_order)
  show "x \<in> set (order_created_at_desc ts)" using assms(1) by (simp add: set_order)
  show "length (filter (\<lambda>y. t_created_at x \<le> t_created_at y) (order_created_at_desc ts)) \<le> n"
    using assms(2) by (simp add: length_filter_order)
qed

lemma fetchTransactions_lists:
  assumes "t \<in> set (transactions_table db)" and "user_id t = user st" and "user st \<noteq> None"
    and "length (not_older (user st) (t_created_at t) db) \<le> 10"
  shows "t \<in> set (transactions (snd (fetchTransactions st db)))"
proof -
  from assms(3) obtain u where u: "user st = Some u" by auto
  let ?own = "filter (\<lambda>t. user_id t = Some u) (transactions_table db)"
  from assms(1,2) u have "t \<in> set ?own" by simp
  moreover have "filter (\<lambda>y. t_created_at t \<le> t_created_at y) ?own
                 = not_older (user st) (t_created_at t) db"
    by (simp add: not_older_def u)
  with assms(4) have "length (filter (\<lambda>y. t_created_at t \<le> t_created_at y) ?own) \<le> 10"
    by simp
  ultimately have "t \<in> set (take 10 (order_created_at_desc ?own))"
    by (rule listed_if_among_newest)
  with u show ?thesis by (simp add: fetchTransactions_def)
qed

lemma handleTransaction_keeps_rows:
  "set (transactions_table db)
   \<subseteq> set (transactions_table (snd (snd (handleTransaction js trg e ty (st, db)))))"
proof -
  obtain out st' db' where r: "handleTransaction js trg e ty (st, db) = (out, st', db')"
    by (cases "handleTransaction js trg e ty (st, db)") auto
  from handleTransaction_cases [OF r]
  have "set (transactions_table db) \<subseteq> set (transactions_table db')"
    by (auto dest!: insert_transactions_Inr)
  with r show ?thesis by simp
qed

lemma insert_auth_users_keeps_rows:
  "insert_auth_users t new db = Inr db' \<Longrightarrow> transactions_table db' = transactions_table db"
  by (auto simp: insert_auth_users_def handle_new_user_def Let_def split: if_splits)

lemma run_keeps_rows:
  "set (transactions_table db) \<subseteq> set (transactions_table (run js trg cs db))"
proof (induction cs arbitrary: db)
  case Nil
  then show ?case by simp
next
  case (Cons c cs)
  show ?case
  proof (cases c)
    case (SignUp t new)
    show ?thesis
    proof (cases "insert_auth_users t new db")
      case (Inl err)
      with SignUp Cons.IH [of db] show ?thesis by simp
    next
      case (Inr db1)
      with SignUp Cons.IH [of db1] insert_auth_users_keeps_rows [OF Inr] show ?thesis by simp
    qed
  next
    case (Submit e ty st)
    with Cons.IH [of "snd (snd (handleTransaction js trg e ty (st, db)))"]
      handleTransaction_keeps_rows [of db js trg e ty st]
    show ?thesis by auto
  qed
qed

lemma fetchProfile_user: "user (snd (fetchProfile js st db)) = user st"
  by (simp add: fetchProfile_def split: list.splits)

text \<open>
  Claim C8, as stated: a transaction stored by an accepted submission is retrievable
  from then on. The list holds the ten newest rows and nothing pages beyond them: after
  ten further deposits the first one is in the table and no longer in the list.
\<close>

theorem first_deposit_drops_out:
  "hd (fst (handleTransaction literals ledger_trigger (drawn 20 100) deposit
              (alice_dashboard 0 ''0.5'', alice_database 0 [])))
     = toast_success ''deposit successful''
   \<and> run literals ledger_trigger eleven_deposits (alice_database 0 [])
     = alice_database (11/2) eleven_rows
   \<and> alice_tx 100 deposit (1/2) 20 \<in> set (transactions_table (alice_database (11/2) eleven_rows))
   \<and> alice_tx 100 deposit (1/2) 20 \<notin> set (transactions (snd (fetchTransactions
        (alice_dashboard (11/2) []) (alice_database (11/2) eleven_rows))))"
proof -
  have "alice_tx 100 deposit (1/2) 20 \<in> set (transactions_table (alice_database (11/2) eleven_rows))"
    by (simp add: alice_database_def eleven_rows_def)
  moreover have "alice_tx 100 deposit (1/2) 20 \<notin> set (transactions (snd (fetchTransactions
        (alice_dashboard (11/2) []) (alice_database (11/2) eleven_rows))))"
    by (simp add: fetch_alice eleven_rows_def order_created_at_desc_def alice_tx_sel)
       (simp add: alice_tx_def)
  ultimately show ?thesis by (simp add: deposit_half run_eleven)
qed

text \<open>
  Claim C8, amended. A transaction stored by an accepted submission keeps the amount read
  from the form, currency BTC, the submitted kind and status \<open>completed\<close>, and it is in
  the list for as long as at most ten of the user's rows, itself included, are stamped at
  or after it: in the list the submission itself reloads, and in the list any dashboard
  of the same user loads after any further history.
\<close>

theorem submitted_transaction_listed:
  assumes "handleTransaction js trg e type (st, db) = (out, st', db')"
    and "hd out = toast_success (type_name type @ '' successful'')"
  shows "\<exists>a. Number js (amount st) = Num a
       \<and> (length (not_older (user st) (now e) db') \<le> 10 \<longrightarrow>
            \<lparr>t_id = gen_random_uuid e, user_id = user st, t_type = type, t_amount = a,
             t_currency = BTC, t_status = completed, t_created_at = now e\<rparr>
            \<in> set (transactions st'))
       \<and> (user st2 = user st
            \<and> length (not_older (user st) (now e) (run js trg cs db')) \<le> 10 \<longrightarrow>
            \<lparr>t_id = gen_random_uuid e, user_id = user st, t_type = type, t_amount = a,
             t_currency = BTC, t_status = completed, t_created_at = now e\<rparr>
            \<in> set (transactions (snd (fetchTransactions st2 (run js trg cs db')))))"
proof -
  from accepted_submit [OF assms] obtain a u ps where a: "Number js (amount st) = Num a"
    and u: "user st = Some u"
    and db': "db' = db\<lparr>profiles_table := ps,
                transactions_table := transactions_table db @
                  [\<lparr>t_id = gen_random_uuid e, user_id = Some u, t_type = type, t_amount = a,
                    t_currency = BTC, t_status = completed, t_created_at = now e\<rparr>]\<rparr>"
    and st': "st' = (snd (fetchTransactions
                      (snd (fetchProfile js (st\<lparr>loading := True, amount := []\<rparr>) db')) db'))
                   \<lparr>loading := False\<rparr>"
    by blast
  let ?new = "\<lparr>t_id = gen_random_uuid e, user_id = user st, t_type = type, t_amount = a,
               t_currency = BTC, t_status = completed, t_created_at = now e\<rparr>"
  let ?st1 = "snd (fetchProfile js (st\<lparr>loading := True, amount := []\<rparr>) db')"
  have new: "?new \<in> set (transactions_table db')" "user_id ?new = user st" "t_created_at ?new = now e"
    using db' u by simp_all
  have u1: "user ?st1 = user st" by (simp add: fetchProfile_user)
  have first: "?new \<in> set (transactions st')"
    if "length (not_older (user st) (now e) db') \<le> 10"
  proof -
    have "?new \<in> set (transactions (snd (fetchTransactions ?st1 db')))"
      using new u u1 that by (intro fetchTransactions_lists) simp_all
    with st' show ?thesis by simp
  qed
  have later: "?new \<in> set (transactions (snd (fetchTransactions st2 (run js trg cs db'))))"
    if "user st2 = user st" "length (not_older (user st) (now e) (run js trg cs db')) \<le> 10"
  proof -
    from new(1) run_keeps_rows [of db' js trg cs]
    have "?new \<in> set (transactions_table (run js trg cs db'))" by blast
    then show ?thesis using new u that by (intro fetchTransactions_lists) simp_all
  qed
  from a first later show ?thesis by blast
qed

theorem submitted_transaction_listed_witness:
  "hd [toast_success ''deposit successful''] = toast_success (type_name deposit @ '' successful'')
   \<and> Number literals (amount (alice_dashboard (1/2) ''0.5'')) = Num (1/2)
   \<and> length (not_older (Some 7) 30
        (alice_database 1 [alice_tx 100 deposit (1/2) 20, alice_tx 101 deposit (1/2) 30])) \<le> 10
   \<and> alice_tx 101 deposit (1/2) 30
       \<in> set (transactions ((alice_dashboard 1 [])\<lparr>transactions :=
            [alice_tx 101 deposit (1/2) 30, alice_tx 100 deposit (1/2) 20]\<rparr>))
   \<and> user (alice_dashboard (3/2) []) = Some 7
   \<and> length (not_older (Some 7) 30
        (run literals ledger_trigger [Submit (drawn 40 102) deposit (alice_dashboard 1 ''0.5'')]
          (alice_database 1 [alice_tx 100 deposit (1/2) 20, alice_tx 101 deposit (1/2) 30]))) \<le> 10
   \<and> alice_tx 101 deposit (1/2) 30
       \<in> set (transactions (snd (fetchTransactions (alice_dashboard (3/2) [])
            (run literals ledger_trigger [Submit (drawn 40 102) deposit (alice_dashboard 1 ''0.5'')]
              (alice_database 1 [alice_tx 100 deposit (1/2) 20, alice_tx 101 deposit (1/2) 30])))))"
proof -
  have ok: "hd [toast_success ''deposit successful''] = toast_success (type_name deposit @ '' successful'')"
    by simp
  have n: "Number literals (amount (alice_dashboard (1/2) ''0.5'')) = Num (1/2)"
    by (simp add: alice_dashboard_def literals_def Number_table_def)
  have u: "user (alice_dashboard (1/2) ''0.5'') = Some 7" "user (alice_dashboard (3/2) []) = Some 7"
    by (simp_all add: alice_dashboard_def)
  have r: "run literals ledger_trigger [Submit (drawn 40 102) deposit (alice_dashboard 1 ''0.5'')]
          (alice_database 1 [alice_tx 100 deposit (1/2) 20, alice_tx 101 deposit (1/2) 30])
        = alice_database (3/2) [alice_tx 100 deposit (1/2) 20, alice_tx 101 deposit (1/2) 30,
            alice_tx 102 deposit (1/2) 40]"
    by (simp add: deposit_step alice_tx_sel)
  have l1: "length (not_older (Some 7) 30
        (alice_database 1 [alice_tx 100 deposit (1/2) 20, alice_tx 101 deposit (1/2) 30])) \<le> 10"
    by (simp add: not_older_def alice_database_def)
  have l2: "length (not_older (Some 7) 30
        (alice_database (3/2) [alice_tx 100 deposit (1/2) 20, alice_tx 101 deposit (1/2) 30,
            alice_tx 102 deposit (1/2) 40])) \<le> 10"
    by (simp add: not_older_def alice_database_def)
  from submitted_transaction_listed [OF deposit_again ok, of "alice_dashboard (3/2) []"
      "[Submit (drawn 40 102) deposit (alice_dashboard 1 ''0.5'')]"]
  obtain a where a: "Number literals (amount (alice_dashboard (1/2) ''0.5'')) = Num a"
    and f: "length (not_older (user (alice_dashboard (1/2) ''0.5'')) (now (drawn 30 101))
              (alice_database 1 [alice_tx 100 deposit (1/2) 20, alice_tx 101 deposit (1/2) 30])) \<le> 10
            \<longrightarrow> \<lparr>t_id = gen_random_uuid (drawn 30 101), user_id = user (alice_dashboard (1/2) ''0.5''),
                  t_type = deposit, t_amount = a, t_currency = BTC, t_status = completed,
                  t_created_at = now (drawn 30 101)\<rparr>
               \<in> set (transactions ((alice_dashboard 1 [])\<lparr>transactions :=
                    [alice_tx 101 deposit (1/2) 30, alice_tx 100 deposit (1/2) 20]\<rparr>))"
    and g: "user (alice_dashboard (3/2) []) = user (alice_dashboard (1/2) ''0.5'')
            \<and> length (not_older (user (alice_dashboard (1/2) ''0.5'')) (now (drawn 30 101))
              (run literals ledger_trigger [Submit (drawn 40 102) deposit (alice_dashboard 1 ''0.5'')]
                (alice_database 1 [alice_tx 100 deposit (1/2) 20, alice_tx 101 deposit (1/2) 30]))) \<le> 10
            \<longrightarrow> \<lparr>t_id = gen_random_uuid (drawn 30 101), user_id = user (alice_dashboard (1/2) ''0.5''),
                  t_type = deposit, t_amount = a, t_currency = BTC, t_status = completed,
                  t_created_at = now (drawn 30 101)\<rparr>
               \<in> set (transactions (snd (fetchTransactions (alice_dashboard (3/2) [])
                    (run literals ledger_trigger [Submit (drawn 40 102) deposit (alice_dashboard 1 ''0.5'')]
                      (alice_database 1 [alice_tx 100 deposit (1/2) 20, alice_tx 101 deposit (1/2) 30])))))"
    by blast
  from a n have a': "a = 1/2" by simp
  have d: "now (drawn 30 101) = 30" "gen_random_uuid (drawn 30 101) = 101"
    by (simp_all add: drawn_def)
  from f l1 have "alice_tx 101 deposit (1/2) 30
       \<in> set (transactions ((alice_dashboard 1 [])\<lparr>transactions :=
            [alice_tx 101 deposit (1/2) 30, alice_tx 100 deposit (1/2) 20]\<rparr>))"
    by (simp add: a' u d alice_tx_def)
  moreover from g l2 have "alice_tx 101 deposit (1/2) 30
       \<in> set (transactions (snd (fetchTransactions (alice_dashboard (3/2) [])
            (run literals ledger_trigger [Submit (drawn 40 102) deposit (alice_dashboard 1 ''0.5'')]
              (alice_database 1 [alice_tx 100 deposit (1/2) 20, alice_tx 101 deposit (1/2) 30])))))"
    unfolding r by (simp add: a' u d alice_tx_def)
  ultimately show ?thesis using ok n l1 l2 u r by simp
qed

subsection \<open>The ledger's balance change\<close>

text \<open>
  With the schema as migrated, storing a transaction leaves every balance as it was.
\<close>

lemma no_trigger_keeps_balances:
  "list_all balance_checks ps \<Longrightarrow> update_balances no_trigger new ps = Inr ps"
  by (induction ps) (simp_all add: no_trigger_def balance_checks_def)

lemma find_account:
  "Some u \<in> Some ` (p_id ` set ps) \<Longrightarrow> \<exists>r. find (\<lambda>r. p_id r = u) ps = Some r"
  by (induction ps) auto

text \<open>
  Claim C4, with the ledger's trigger. A submission changes the database only when it is
  accepted, and then all at once: one \<open>completed\<close> transaction is appended and the
  account's BTC balance is the prior balance plus the amount for a deposit, minus the
  amount for a withdrawal; the USD balance stays. The witness is the specification's
  example: a deposit of 0.5 on a BTC balance of 0 gives 0.5 and one completed transaction.
\<close>

theorem accepted_submit_applies_delta:
  assumes "handleTransaction js ledger_trigger e type (st, db) = (out, st', db')"
  shows "(hd out \<noteq> toast_success (type_name type @ '' successful'') \<longrightarrow> db' = db)
       \<and> (hd out = toast_success (type_name type @ '' successful'') \<longrightarrow>
           (\<exists>u a r r'. user st = Some u \<and> Number js (amount st) = Num a \<and> 0 < a
              \<and> account db u = Some r \<and> account db' u = Some r'
              \<and> (type = deposit \<longrightarrow> p_btc_balance r' = p_btc_balance r + a)
              \<and> (type = withdrawal \<longrightarrow> p_btc_balance r' = p_btc_balance r - a)
              \<and> p_usd_balance r' = p_usd_balance r
              \<and> transactions_table db' = transactions_table db @
                  [\<lparr>t_id = gen_random_uuid e, user_id = Some u, t_type = type, t_amount = a,
                    t_currency = BTC, t_status = completed, t_created_at = now e\<rparr>]))"
proof (intro conjI impI)
  assume "hd out \<noteq> toast_success (type_name type @ '' successful'')"
  with handleTransaction_cases [OF assms] show "db' = db" by auto
next
  assume ok: "hd out = toast_success (type_name type @ '' successful'')"
  let ?new = "\<lambda>u a. \<lparr>t_id = gen_random_uuid e, user_id = Some u, t_type = type, t_amount = a,
               t_currency = BTC, t_status = completed, t_created_at = now e\<rparr>"
  from accepted_submit [OF assms ok] obtain a u ps where a: "Number js (amount st) = Num a" "0 < a"
    and u: "user st = Some u"
    and fk: "Some u \<in> Some ` (p_id ` set (profiles_table db))"
    and upd: "update_balances ledger_trigger (?new u a) (profiles_table db) = Inr ps"
    and db': "db' = db\<lparr>profiles_table := ps,
                transactions_table := transactions_table db @ [?new u a]\<rparr>"
    by blast
  from find_account [OF fk] obtain r where r: "find (\<lambda>r. p_id r = u) (profiles_table db) = Some r"
    by blast
  from update_balances_account [OF upd _ r] obtain b c
    where trg: "ledger_trigger (?new u a) (p_btc_balance r, p_usd_balance r) = Inr (b, c)"
      and r': "find (\<lambda>r. p_id r = u) ps = Some (r\<lparr>p_btc_balance := b, p_usd_balance := c\<rparr>)"
    by auto
  from trg have bc: "c = p_usd_balance r" "type = deposit \<longrightarrow> b = p_btc_balance r + a"
    "type = withdrawal \<longrightarrow> b = p_btc_balance r - a"
    by (auto simp: ledger_trigger_def applyDelta_def Let_def split: tx_type.splits if_splits)
  show "\<exists>u a r r'. user st = Some u \<and> Number js (amount st) = Num a \<and> 0 < a
              \<and> account db u = Some r \<and> account db' u = Some r'
              \<and> (type = deposit \<longrightarrow> p_btc_balance r' = p_btc_balance r + a)
              \<and> (type = withdrawal \<longrightarrow> p_btc_balance r' = p_btc_balance r - a)
              \<and> p_usd_balance r' = p_usd_balance r
              \<and> transactions_table db' = transactions_table db @
                  [\<lparr>t_id = gen_random_uuid e, user_id = Some u, t_type = type, t_amount = a,
                    t_currency = BTC, t_status = completed, t_created_at = now e\<rparr>]"
    using a u r r' bc db'
    by (intro exI [of _ u] exI [of _ a] exI [of _ r]
          exI [of _ "r\<lparr>p_btc_balance := b, p_usd_balance := c\<rparr>"])
       (simp add: account_def)
qed

theorem accepted_submit_applies_delta_witness:
  "handleTransaction literals ledger_trigger (drawn 20 100) deposit
     (alice_dashboard 0 ''0.5'', alice_database 0 [])
   = ([toast_success ''deposit successful''],
      (alice_dashboard (1/2) [])\<lparr>transactions := [alice_tx 100 deposit (1/2) 20]\<rparr>,
      alice_database (1/2) [alice_tx 100 deposit (1/2) 20])
   \<and> account (alice_database 0 []) 7 = Some (alice_row 0)
   \<and> account (alice_database (1/2) [alice_tx 100 deposit (1/2) 20]) 7 = Some (alice_row (1/2))
   \<and> p_btc_balance (alice_row (1/2)) = p_btc_balance (alice_row 0) + 1/2
   \<and> transactions_table (alice_database (1/2) [alice_tx 100 deposit (1/2) 20])
     = transactions_table (alice_database 0 []) @
         [\<lparr>t_id = 100, user_id = Some 7, t_type = deposit, t_amount = 1/2,
           t_currency = BTC, t_status = completed, t_created_at = 20\<rparr>]"
  using accepted_submit_applies_delta [OF deposit_half] deposit_half
  by (simp add: account_def alice_database_def alice_row_def alice_tx_def)

end
